theory Spec2Isabelle
  imports Main "HOL-Library.Sublist"
begin

section \<open>Configuration (agent.py, lines 21--38)\<close>

definition PROJECT_ID :: string where
  "PROJECT_ID = ''playground-s-11-6d7b503d''"

definition DATASET_ID :: string where
  "DATASET_ID = ''ecom_analytics''"

definition BLOCKED_KEYWORDS :: "string list" where
  "BLOCKED_KEYWORDS =
     [''DELETE'', ''DROP'', ''TRUNCATE'', ''UPDATE'', ''INSERT'',
      ''ALTER'', ''CREATE'', ''MERGE'', ''GRANT'', ''REVOKE'']"

section \<open>The string methods used by the guardrail\<close>

text \<open>
  A Python \<open>str\<close> is a sequence of code points. It is modelled as a \<open>string\<close> whose
  characters are the code points U+0000 to U+00FF, \<open>of_char c\<close> being the number of the
  code point. \<open>isspace\<close> holds for exactly the code points of that range that
  \<open>str.split()\<close> and \<open>str.strip()\<close> treat as whitespace: TAB, LF, VT, FF, CR, the separators
  FS, GS, RS, US, the blank, NEL (U+0085) and the no-break space (U+00A0).

  \<open>upper\<close> maps \<open>a..z\<close> to \<open>A..Z\<close> and leaves every other character as it is.
  \<open>str.upper()\<close> changes further characters of the range: U+00E0 to U+00FE (without
  U+00F7) go to U+00C0 to U+00DE, U+00B5 and U+00FF go to code points above U+00FF, and
  U+00DF goes to the two letters \<open>SS\<close>. Among them only U+00DF yields letters \<open>A..Z\<close>, and
  no entry of \<open>BLOCKED_KEYWORDS\<close> contains \<open>SS\<close>; so on this range a token is equal to a
  keyword after \<open>str.upper()\<close> exactly when it is after \<open>upper\<close>, and the guardrail below
  decides as the code does. Queries with code points above U+00FF are not in the model.
\<close>

definition isspace :: "char \<Rightarrow> bool" where
  "isspace c =
     (let n = (of_char c :: nat)
      in (9 \<le> n \<and> n \<le> 13) \<or> (28 \<le> n \<and> n \<le> 32) \<or> n = 133 \<or> n = 160)"

definition upper_char :: "char \<Rightarrow> char" where
  "upper_char c =
     (let n = (of_char c :: nat) in if 97 \<le> n \<and> n \<le> 122 then char_of (n - 32) else c)"

definition upper :: "string \<Rightarrow> string" where
  "upper s = map upper_char s"

definition strip :: "string \<Rightarrow> string" where
  "strip s = rev (dropWhile isspace (rev (dropWhile isspace s)))"

text \<open>
  \<open>str.split()\<close> without a separator: skip a run of whitespace, scan a token up to the
  next whitespace character, append it, and go on behind it; no empty token is produced.
\<close>

function split :: "string \<Rightarrow> string list" where
  "split s =
     (case dropWhile isspace s of
        [] \<Rightarrow> []
      | c # cs \<Rightarrow>
          (c # takeWhile (\<lambda>x. \<not> isspace x) cs) # split (dropWhile (\<lambda>x. \<not> isspace x) cs))"
  by pat_completeness auto
termination
proof (relation "measure length")
  show "wf (measure length)" by simp
next
  fix s :: string and c cs
  assume a: "dropWhile isspace s = c # cs"
  have "length (dropWhile (\<lambda>x. \<not> isspace x) cs) \<le> length cs"
    by (rule length_dropWhile_le)
  moreover have "length (c # cs) \<le> length s"
    using a length_dropWhile_le [of isspace s] by simp
  ultimately show "(dropWhile (\<lambda>x. \<not> isspace x) cs, s) \<in> measure length"
    by simp
qed

declare split.simps [simp del]

section \<open>Python values, exceptions and the result dictionaries\<close>

text \<open>
  \<open>exn\<close> stands for an instance of Python's \<open>Exception\<close> class carrying its message; these
  are the errors the BigQuery client raises, and \<open>except Exception as e\<close> catches each of
  them. \<open>str e\<close> is \<open>str(e)\<close>.
\<close>

datatype exn = Exception string

fun str :: "exn \<Rightarrow> string" where
  "str (Exception msg) = msg"

text \<open>
  The values stored in the dictionaries the tools return. A row of a query result is
  kept as the dictionary \<open>dict(row)\<close> builds from it, of an arbitrary type \<open>'row\<close>.
\<close>

datatype 'row pyval =
    PyNone
  | PyStr string
  | PyInt int
  | PyStrs "string list"
  | PyRows "'row list"
  | PyDicts "(string \<times> string) list list"

text \<open>A Python \<open>dict\<close> with string keys, in insertion order.\<close>

type_synonym 'row envelope = "(string \<times> 'row pyval) list"

text \<open>\<open>try: body  except Exception as e: handler(e)\<close>\<close>

definition try_except :: "exn + 'a \<Rightarrow> (exn \<Rightarrow> exn + 'a) \<Rightarrow> exn + 'a" where
  "try_except body handler = (case body of Inr v \<Rightarrow> Inr v | Inl e \<Rightarrow> handler e)"

section \<open>The BigQuery client (external)\<close>

text \<open>
  An iterator of the client (\<open>RowIterator\<close>, the iterator of \<open>list_tables\<close>): the items it
  yields, and then either the end of the iteration or an exception raised while fetching
  the next page.
\<close>

datatype 'a iter = Iter "'a list" "exn option"

record schema_field =
  field_name :: string
  field_type :: string
  field_mode :: string

record table =
  table_schema :: "schema_field list"
  num_rows :: "int option"

text \<open>
  The three calls the tools make on \<open>bq_client\<close>, each returning its value or raising:
  \<open>bq_query q\<close> is \<open>bq_client.query(q).result()\<close>, \<open>bq_get_table r\<close> is
  \<open>bq_client.get_table(r)\<close>, and \<open>bq_list_tables d\<close> is \<open>bq_client.list_tables(d)\<close>, whose
  items are given by their \<open>table_id\<close>.
\<close>

record 'row bq_client =
  bq_query :: "string \<Rightarrow> exn + 'row iter"
  bq_get_table :: "string \<Rightarrow> exn + table"
  bq_list_tables :: "string \<Rightarrow> exn + string iter"

text \<open>The calls a tool invocation has made on the client, in order.\<close>

datatype call = Query string | Get_table string | List_tables string

text \<open>
  \<open>acc = []; for x in it: acc.append(f(x))\<close>: the loop ends with the list, or with the
  exception the iterator raises.
\<close>

fun for_append :: "('a \<Rightarrow> 'b) \<Rightarrow> 'a list \<Rightarrow> exn option \<Rightarrow> 'b list \<Rightarrow> exn + 'b list" where
  "for_append f [] None acc = Inr acc"
| "for_append f [] (Some e) acc = Inl e"
| "for_append f (x # xs) fin acc = for_append f xs fin (acc @ [f x])"

fun for_iter :: "('a \<Rightarrow> 'b) \<Rightarrow> 'a iter \<Rightarrow> exn + 'b list" where
  "for_iter f (Iter xs fin) = for_append f xs fin []"

section \<open>The guardrail and the tools (agent.py, lines 44--138)\<close>

text \<open>
  Lines 56--57: \<open>for keyword in BLOCKED_KEYWORDS: if keyword in sql_upper.split(): return ...\<close>;
  the result is the keyword at which the loop returns, if it does.
\<close>

fun blocked_keyword :: "string list \<Rightarrow> string \<Rightarrow> string option" where
  "blocked_keyword [] sql_upper = None"
| "blocked_keyword (keyword # rest) sql_upper =
     (if keyword \<in> set (split sql_upper) then Some keyword
      else blocked_keyword rest sql_upper)"

text \<open>The decision of lines 55--57 on a query.\<close>

datatype decision = ALLOW | BLOCK string

definition guardrail :: "string \<Rightarrow> decision" where
  "guardrail query =
     (let sql_upper = strip (upper query) in
      case blocked_keyword BLOCKED_KEYWORDS sql_upper of
        Some keyword \<Rightarrow> BLOCK keyword
      | None \<Rightarrow> ALLOW)"

definition blocked_message :: "string \<Rightarrow> string" where
  "blocked_message keyword =
     ''Query blocked: contains '' @ [CHR 0x27] @ keyword @ [CHR 0x27] @ '' operation. '' @
     ''This agent is read-only and cannot modify data.''"

definition error_envelope :: "exn \<Rightarrow> 'row envelope" where
  "error_envelope e = [(''status'', PyStr ''error''), (''message'', PyStr (str e))]"

text \<open>
  Each tool returns the dictionary (or the exception that leaves the function) together
  with the calls it made on the client.
\<close>

definition execute_sql :: "'row bq_client \<Rightarrow> string \<Rightarrow> (exn + 'row envelope) \<times> call list" where
  "execute_sql bq query =
     (case guardrail query of
        BLOCK keyword \<Rightarrow>
          (Inr [(''status'', PyStr ''blocked''),
                (''message'', PyStr (blocked_message keyword))], [])
      | ALLOW \<Rightarrow>
          (try_except
             (case bq_query bq query of
                Inl e \<Rightarrow> Inl e
              | Inr results \<Rightarrow>
                  (case for_iter (\<lambda>row. row) results of
                     Inl e \<Rightarrow> Inl e
                   | Inr rows \<Rightarrow>
                       Inr [(''status'', PyStr ''success''),
                            (''row_count'', PyInt (int (length rows))),
                            (''results'', PyRows (take 50 rows))]))
             (\<lambda>e. Inr (error_envelope e)),
           [Query query]))"

definition column_dict :: "schema_field \<Rightarrow> (string \<times> string) list" where
  "column_dict field =
     [(''name'', field_name field), (''type'', field_type field), (''mode'', field_mode field)]"

definition total_rows_val :: "int option \<Rightarrow> 'row pyval" where
  "total_rows_val n = (case n of None \<Rightarrow> PyNone | Some k \<Rightarrow> PyInt k)"

definition get_schema :: "'row bq_client \<Rightarrow> string \<Rightarrow> (exn + 'row envelope) \<times> call list" where
  "get_schema bq table_name =
     (let table_ref = PROJECT_ID @ ''.'' @ DATASET_ID @ ''.'' @ table_name in
      (try_except
         (case bq_get_table bq table_ref of
            Inl e \<Rightarrow> Inl e
          | Inr tbl \<Rightarrow>
              (case for_append column_dict (table_schema tbl) None [] of
                 Inl e \<Rightarrow> Inl e
               | Inr columns \<Rightarrow>
                   Inr [(''status'', PyStr ''success''),
                        (''table'', PyStr table_ref),
                        (''total_rows'', total_rows_val (num_rows tbl)),
                        (''columns'', PyDicts columns)]))
         (\<lambda>e. Inr (error_envelope e)),
       [Get_table table_ref]))"

definition list_tables :: "'row bq_client \<Rightarrow> (exn + 'row envelope) \<times> call list" where
  "list_tables bq =
     (let dataset = PROJECT_ID @ ''.'' @ DATASET_ID in
      (try_except
         (case bq_list_tables bq dataset of
            Inl e \<Rightarrow> Inl e
          | Inr tables \<Rightarrow>
              (case for_iter (\<lambda>table_id. table_id) tables of
                 Inl e \<Rightarrow> Inl e
               | Inr table_list \<Rightarrow>
                   Inr [(''status'', PyStr ''success''),
                        (''dataset'', PyStr dataset),
                        (''tables'', PyStrs table_list)]))
         (\<lambda>e. Inr (error_envelope e)),
       [List_tables dataset]))"

section \<open>The audit callbacks (agent.py, lines 144--154)\<close>

text \<open>
  Standard output is the list of the lines printed so far. \<open>print\<close> may raise (a closed
  or broken stream, a character the stream's encoding rejects): \<open>write line\<close> is the
  exception raised for \<open>line\<close>, if any; otherwise the line is appended.
\<close>

definition print :: "(string \<Rightarrow> exn option) \<Rightarrow> string \<Rightarrow> string list \<Rightarrow> exn + string list" where
  "print write line out = (case write line of Some e \<Rightarrow> Inl e | None \<Rightarrow> Inr (out @ [line]))"

text \<open>
  Of the tool only its \<open>name\<close> is read, and \<open>tool_context\<close> is not used. \<open>str_args\<close> and
  \<open>str_response\<close> are Python's \<open>str()\<close> on the argument dictionary and on the response.
  A callback returns \<open>None\<close> (with the new output) or leaves by an exception.
\<close>

definition before_tool_callback ::
  "(string \<Rightarrow> exn option) \<Rightarrow> ('a \<Rightarrow> string) \<Rightarrow> string \<Rightarrow> 'a \<Rightarrow> string list
     \<Rightarrow> exn + ('r option \<times> string list)" where
  "before_tool_callback write str_args tool_name args out =
     (case print write (''BEFORE TOOL | '' @ tool_name @ '' | Args: '' @ take 200 (str_args args)) out of
        Inl e \<Rightarrow> Inl e
      | Inr out' \<Rightarrow> Inr (None, out'))"

definition after_tool_callback ::
  "(string \<Rightarrow> exn option) \<Rightarrow> ('r \<Rightarrow> string) \<Rightarrow> string \<Rightarrow> 'a \<Rightarrow> 'r \<Rightarrow> string list
     \<Rightarrow> exn + ('r option \<times> string list)" where
  "after_tool_callback write str_response tool_name args tool_response out =
     (let response_preview = take 300 (str_response tool_response) in
      case print write (''AUDIT LOG | Tool: '' @ tool_name @ '' | Response: '' @ response_preview) out of
        Inl e \<Rightarrow> Inl e
      | Inr out' \<Rightarrow> Inr (None, out'))"

section \<open>The registry and the dispatch of a tool call\<close>





section \<open>Whole tokens, as the specification words them\<close>

text \<open>
  \<open>w\<close> is a standalone whitespace-delimited token of \<open>s\<close>: a non-empty run of
  non-whitespace characters of \<open>s\<close> with whitespace or the end of the string on either
  side. This definition does not come from the code; it is compared with \<open>split\<close> below.
\<close>

definition standalone_token :: "string \<Rightarrow> string \<Rightarrow> bool" where
  "standalone_token w s \<longleftrightarrow>
     w \<noteq> [] \<and> (\<forall>c\<in>set w. \<not> isspace c) \<and>
     (\<exists>pre post. s = pre @ w @ post \<and>
        (pre = [] \<or> isspace (last pre)) \<and> (post = [] \<or> isspace (hd post)))"

text \<open>The tokens of a query after upper-casing, as a set.\<close>

definition normalized_tokens :: "string \<Rightarrow> string set" where
  "normalized_tokens query = upper ` {w. standalone_token w query}"

section \<open>A sample client and sample streams\<close>

definition products_table :: table where
  "products_table =
     \<lparr>table_schema =
        [\<lparr>field_name = ''product_id'', field_type = ''INT64'', field_mode = ''REQUIRED''\<rparr>,
         \<lparr>field_name = ''is_active'', field_type = ''BOOL'', field_mode = ''NULLABLE''\<rparr>],
      num_rows = Some 50\<rparr>"

text \<open>
  A client whose every query yields the 120 rows \<open>0, \<dots>, 119\<close>, that knows the table
  \<open>products\<close> and lists three tables.
\<close>

definition sample_query :: "string \<Rightarrow> exn + nat iter" where
  "sample_query q = Inr (Iter [0..<120] None)"

definition sample_get_table :: "string \<Rightarrow> exn + table" where
  "sample_get_table table_ref =
     (if table_ref = ''playground-s-11-6d7b503d.ecom_analytics.products''
      then Inr products_table
      else Inl (Exception (''Not found: Table '' @ table_ref)))"

definition sample_list_tables :: "string \<Rightarrow> exn + string iter" where
  "sample_list_tables dataset = Inr (Iter [''customers'', ''orders'', ''products''] None)"

definition sample_bq :: "nat bq_client" where
  "sample_bq =
     \<lparr>bq_query = sample_query, bq_get_table = sample_get_table,
      bq_list_tables = sample_list_tables\<rparr>"

text \<open>A standard output that takes every line, and one on which every write fails.\<close>

definition working_stdout :: "string \<Rightarrow> exn option" where
  "working_stdout line = None"

definition broken_stdout :: "string \<Rightarrow> exn option" where
  "broken_stdout line = Some (Exception ''[Errno 32] Broken pipe'')"


text \<open>
  A sample request and sample renderings for \<open>str()\<close>: \<open>sample_str_args\<close> prints a
  dictionary of strings that hold no quote and no backslash, and \<open>sample_str_response\<close>
  shows the status of a response and abbreviates the rest.
\<close>

definition quote :: "string \<Rightarrow> string" where
  "quote s = [CHR 0x27] @ s @ [CHR 0x27]"

fun items_str :: "(string \<times> string) list \<Rightarrow> string" where
  "items_str [] = []"
| "items_str [(k, v)] = quote k @ '': '' @ quote v"
| "items_str ((k, v) # rest) = quote k @ '': '' @ quote v @ '', '' @ items_str rest"

definition sample_str_args :: "(string \<times> string) list \<Rightarrow> string" where
  "sample_str_args args = ''{'' @ items_str args @ ''}''"

definition sample_str_response :: "nat envelope \<Rightarrow> string" where
  "sample_str_response env =
     (case map_of env ''status'' of
        Some (PyStr s) \<Rightarrow> ''{'' @ quote ''status'' @ '': '' @ quote s @ '', ...}''
      | _ \<Rightarrow> ''{...}'')"

definition sample_args :: "(string \<times> string) list" where
  "sample_args = [(''query'', ''DELETE FROM orders'')]"






section \<open>The result envelope, as the specification words it\<close>

text \<open>
  A dictionary is a Result Envelope when it carries exactly one \<open>status\<close> entry and the
  tag is one of \<open>success\<close>, \<open>blocked\<close> and \<open>error\<close>.
\<close>

definition status_tagged :: "'row envelope \<Rightarrow> bool" where
  "status_tagged env \<longleftrightarrow>
     map_of env ''status'' \<in>
       {Some (PyStr ''success''), Some (PyStr ''blocked''), Some (PyStr ''error'')} \<and>
     length (filter (\<lambda>kv. fst kv = ''status'') env) = 1"

section \<open>Properties of \<open>split\<close>, \<open>strip\<close> and \<open>upper\<close>\<close>

lemma split_Nil [simp]: "split [] = []"
  by (simp add: split.simps)

lemma split_space_Cons: "isspace c \<Longrightarrow> split (c # s) = split s"
  by (subst split.simps, subst (2) split.simps) simp

lemma split_nonspace_Cons:
  "\<not> isspace c \<Longrightarrow>
   split (c # s) = (c # takeWhile (\<lambda>x. \<not> isspace x) s) # split (dropWhile (\<lambda>x. \<not> isspace x) s)"
  by (subst split.simps) simp

lemma split_token_append:
  assumes "w \<noteq> []" "\<forall>c\<in>set w. \<not> isspace c" "post = [] \<or> isspace (hd post)"
  shows "split (w @ post) = w # split post"
proof (cases w)
  case Nil with assms show ?thesis by simp
next
  case (Cons c cs)
  have tw: "takeWhile (\<lambda>x. \<not> isspace x) (cs @ post) = cs"
    using assms Cons by (cases post) (auto simp: takeWhile_append2 takeWhile_eq_all_conv)
  have dw: "dropWhile (\<lambda>x. \<not> isspace x) (cs @ post) = dropWhile (\<lambda>x. \<not> isspace x) post"
    using assms Cons by (simp add: dropWhile_append2)
  have dp: "split (dropWhile (\<lambda>x. \<not> isspace x) post) = split post"
    using assms(3) by (cases post) auto
  show ?thesis using Cons assms tw dw dp by (simp add: split_nonspace_Cons)
qed

lemma split_append_space:
  "isspace sp \<Longrightarrow> split (a @ sp # b) = split a @ split b"
proof (induction a rule: length_induct)
  case (1 a)
  note sp = \<open>isspace sp\<close>
  show ?case
  proof (cases a)
    case Nil
    then show ?thesis using sp by (simp add: split_space_Cons)
  next
    case (Cons c a')
    show ?thesis
    proof (cases "isspace c")
      case True
      then show ?thesis using Cons 1 by (simp add: split_space_Cons)
    next
      case False
      let ?ns = "\<lambda>x. \<not> isspace x"
      show ?thesis
      proof (cases "\<forall>x\<in>set a'. ?ns x")
        case True
        then have e: "takeWhile ?ns (a' @ sp # b) = a'" "dropWhile ?ns (a' @ sp # b) = sp # b"
          "takeWhile ?ns a' = a'" "dropWhile ?ns a' = []"
          using sp by (simp_all add: takeWhile_append2 dropWhile_append2)
        have "split (a @ sp # b) = (c # a') # split b"
          using Cons False sp by (simp add: split_nonspace_Cons split_space_Cons e(1,2))
        moreover have "split a = [c # a']"
          using Cons False by (simp add: split_nonspace_Cons e(3,4))
        ultimately show ?thesis by simp
      next
        case ex: False
        then have t: "takeWhile ?ns (a' @ sp # b) = takeWhile ?ns a'"
          and d: "dropWhile ?ns (a' @ sp # b) = dropWhile ?ns a' @ sp # b"
          by (auto simp: takeWhile_append1 dropWhile_append1)
        have "length (dropWhile ?ns a') < length a"
          using Cons length_dropWhile_le [of ?ns a'] by simp
        then have "split (dropWhile ?ns a' @ sp # b) = split (dropWhile ?ns a') @ split b"
          using 1 by blast
        then show ?thesis using Cons False t d by (simp add: split_nonspace_Cons)
      qed
    qed
  qed
qed

lemma split_all_space: "\<forall>c\<in>set s. isspace c \<Longrightarrow> split s = []"
  by (induction s) (simp_all add: split_space_Cons)

lemma split_dropWhile: "split (dropWhile isspace s) = split s"
  by (induction s) (simp_all add: split_space_Cons)

lemma split_append_spaces: "\<forall>c\<in>set t. isspace c \<Longrightarrow> split (a @ t) = split a"
proof (cases t)
  case Nil then show ?thesis by simp
next
  case (Cons sp t')
  assume "\<forall>c\<in>set t. isspace c"
  with Cons show ?thesis by (simp add: split_append_space split_all_space)
qed

lemma split_strip: "split (strip s) = split s"
proof -
  let ?d = "dropWhile isspace s"
  have "?d = rev (dropWhile isspace (rev ?d)) @ rev (takeWhile isspace (rev ?d))"
    by (metis rev_append rev_rev_ident takeWhile_dropWhile_id)
  moreover have "\<forall>c\<in>set (rev (takeWhile isspace (rev ?d))). isspace c"
    by (auto dest: set_takeWhileD)
  ultimately have "split ?d = split (rev (dropWhile isspace (rev ?d)))"
    by (metis split_append_spaces)
  then show ?thesis by (simp add: strip_def split_dropWhile)
qed

lemma isspace_upper_char: "isspace (upper_char c) = isspace c"
  by (auto simp: isspace_def upper_char_def Let_def)

lemma split_upper: "split (upper s) = map upper (split s)"
proof (induction s rule: length_induct)
  case (1 s)
  let ?ns = "\<lambda>x. \<not> isspace x"
  have tk: "\<And>xs. takeWhile ?ns (map upper_char xs) = map upper_char (takeWhile ?ns xs)"
    by (simp add: takeWhile_map comp_def isspace_upper_char)
  have dk: "\<And>xs. dropWhile ?ns (map upper_char xs) = map upper_char (dropWhile ?ns xs)"
    by (simp add: dropWhile_map comp_def isspace_upper_char)
  show ?case
  proof (cases s)
    case Nil then show ?thesis by (simp add: upper_def)
  next
    case (Cons c cs)
    show ?thesis
    proof (cases "isspace c")
      case True
      then show ?thesis using Cons 1
        by (simp add: upper_def split_space_Cons isspace_upper_char)
    next
      case False
      have "length (dropWhile ?ns cs) < length s"
        using Cons length_dropWhile_le [of ?ns cs] by simp
      then have "split (upper (dropWhile ?ns cs)) = map upper (split (dropWhile ?ns cs))"
        using 1 by blast
      then show ?thesis using Cons False
        by (simp add: upper_def split_nonspace_Cons isspace_upper_char tk dk)
    qed
  qed
qed

lemma split_tokens_nonspace: "w \<in> set (split s) \<Longrightarrow> w \<noteq> [] \<and> (\<forall>c\<in>set w. \<not> isspace c)"
proof (induction s arbitrary: w rule: length_induct)
  case (1 s)
  show ?case
  proof (cases s)
    case Nil with 1 show ?thesis by simp
  next
    case (Cons c cs)
    show ?thesis
    proof (cases "isspace c")
      case True
      then have "w \<in> set (split cs)" using Cons 1(2) by (simp add: split_space_Cons)
      moreover have "length cs < length s" using Cons by simp
      ultimately show ?thesis using 1(1) by blast
    next
      case False
      let ?ns = "\<lambda>x. \<not> isspace x"
      have l: "length (dropWhile ?ns cs) < length s"
        using Cons length_dropWhile_le [of ?ns cs] by simp
      from 1(2) Cons False
      consider "w = c # takeWhile ?ns cs" | "w \<in> set (split (dropWhile ?ns cs))"
        by (auto simp: split_nonspace_Cons)
      then show ?thesis
      proof cases
        case 1
        then show ?thesis using False by (auto dest: set_takeWhileD)
      next
        case 2
        then show ?thesis using 1(1) l by blast
      qed
    qed
  qed
qed

lemma in_split_decomp:
  "w \<in> set (split s) \<Longrightarrow>
   \<exists>pre post. s = pre @ w @ post \<and> (pre = [] \<or> isspace (last pre)) \<and> (post = [] \<or> isspace (hd post))"
proof (induction s arbitrary: w rule: length_induct)
  case (1 s)
  show ?case
  proof (cases s)
    case Nil with 1 show ?thesis by simp
  next
    case (Cons c cs)
    show ?thesis
    proof (cases "isspace c")
      case True
      then have "w \<in> set (split cs)" using Cons 1(2) by (simp add: split_space_Cons)
      then obtain pre post where p: "cs = pre @ w @ post" "pre = [] \<or> isspace (last pre)"
          "post = [] \<or> isspace (hd post)"
        using 1(1) Cons by (metis length_Cons lessI)
      then have "s = (c # pre) @ w @ post \<and> (c # pre = [] \<or> isspace (last (c # pre)))"
        using Cons True by auto
      with p(3) show ?thesis by blast
    next
      case False
      let ?ns = "\<lambda>x. \<not> isspace x"
      let ?t = "takeWhile ?ns cs" and ?d = "dropWhile ?ns cs"
      have l: "length ?d < length s"
        using Cons length_dropWhile_le [of ?ns cs] by simp
      have hd_d: "?d = [] \<or> isspace (hd ?d)"
        using hd_dropWhile [of ?ns cs] by auto
      from 1(2) Cons False
      consider "w = c # ?t" | "w \<in> set (split ?d)"
        by (auto simp: split_nonspace_Cons)
      then show ?thesis
      proof cases
        case 1
        then have "s = [] @ w @ ?d" using Cons by simp
        with hd_d show ?thesis by blast
      next
        case 2
        then obtain pre post where p: "?d = pre @ w @ post" "pre = [] \<or> isspace (last pre)"
          "post = [] \<or> isspace (hd post)"
          using 1(1) l by blast
        have wn: "w \<noteq> [] \<and> (\<forall>c\<in>set w. \<not> isspace c)"
          using 2 by (rule split_tokens_nonspace)
        have "pre \<noteq> []"
        proof
          assume "pre = []"
          then have "hd ?d = hd w" "?d \<noteq> []" using p(1) wn by auto
          then show False using hd_d wn by auto
        qed
        then have "isspace (last ((c # ?t) @ pre))" using p(2) by simp
        moreover have "s = ((c # ?t) @ pre) @ w @ post"
          using Cons p(1) by (metis append.assoc append_Cons takeWhile_dropWhile_id)
        ultimately show ?thesis using p(3) by blast
      qed
    qed
  qed
qed

lemma in_split_iff: "w \<in> set (split s) \<longleftrightarrow> standalone_token w s"
proof
  assume "w \<in> set (split s)"
  then show "standalone_token w s"
    unfolding standalone_token_def
    using split_tokens_nonspace in_split_decomp by blast
next
  assume "standalone_token w s"
  then obtain pre post where w: "w \<noteq> []" "\<forall>c\<in>set w. \<not> isspace c"
    and s: "s = pre @ w @ post" and pre: "pre = [] \<or> isspace (last pre)"
    and post: "post = [] \<or> isspace (hd post)"
    unfolding standalone_token_def by blast
  have a: "split (w @ post) = w # split post"
    using w post by (rule split_token_append)
  show "w \<in> set (split s)"
  proof (cases "pre = []")
    case True
    then show ?thesis using s a by simp
  next
    case False
    then obtain pre' sp where "pre = pre' @ [sp]" "isspace sp"
      using pre by (metis append_butlast_last_id)
    then have "split s = split pre' @ split (w @ post)"
      using s split_append_space [of sp pre' "w @ post"] by simp
    then show ?thesis using a by simp
  qed
qed

lemma normalized_split: "set (split (strip (upper query))) = normalized_tokens query"
  by (auto simp: split_strip split_upper normalized_tokens_def in_split_iff)

text \<open>
  Only tokens made of the letters \<open>a..z\<close> and \<open>A..Z\<close> are equal to a keyword after
  \<open>upper\<close>; the characters that \<open>upper\<close> leaves alone play no part in a match.
\<close>

lemma keyword_token_letters:
  assumes "k \<in> set BLOCKED_KEYWORDS" and "upper w = k"
  shows "\<forall>c\<in>set w. (65 \<le> (of_char c :: nat) \<and> (of_char c :: nat) \<le> 90) \<or>
                     (97 \<le> (of_char c :: nat) \<and> (of_char c :: nat) \<le> 122)"
proof
  fix c assume c: "c \<in> set w"
  have "\<forall>d\<in>set k. 65 \<le> (of_char d :: nat) \<and> (of_char d :: nat) \<le> 90"
    using assms(1) by (auto simp: BLOCKED_KEYWORDS_def)
  moreover have "upper_char c \<in> set k"
    using c assms(2) by (auto simp: upper_def)
  ultimately have u: "65 \<le> (of_char (upper_char c) :: nat) \<and> (of_char (upper_char c) :: nat) \<le> 90"
    by blast
  show "(65 \<le> (of_char c :: nat) \<and> (of_char c :: nat) \<le> 90) \<or>
        (97 \<le> (of_char c :: nat) \<and> (of_char c :: nat) \<le> 122)"
  proof (cases "97 \<le> (of_char c :: nat) \<and> (of_char c :: nat) \<le> 122")
    case True
    then show ?thesis by simp
  next
    case False
    then have "upper_char c = c" by (auto simp: upper_char_def Let_def)
    with u show ?thesis by simp
  qed
qed

text \<open>The no-break space and NEL delimit tokens, as they do for \<open>str.split()\<close>.\<close>

lemma guardrail_no_break_space:
  "guardrail (''delete'' @ [CHR 0xA0] @ ''x drop'') = BLOCK ''DELETE''"
  by code_simp

lemma guardrail_next_line:
  "guardrail (''select 1;'' @ [CHR 0x85] @ ''drop'' @ [CHR 0xA0] @ ''table t'') = BLOCK ''DROP''"
  by code_simp

lemma blocked_keyword_None_iff:
  "blocked_keyword ks s = None \<longleftrightarrow> (\<forall>k\<in>set ks. k \<notin> set (split s))"
  by (induction ks) auto

lemma blocked_keyword_Some_iff:
  "blocked_keyword ks s = Some k \<longleftrightarrow>
     (\<exists>pre post. ks = pre @ k # post \<and> k \<in> set (split s) \<and> (\<forall>k'\<in>set pre. k' \<notin> set (split s)))"
proof (induction ks)
  case Nil
  then show ?case by simp
next
  case (Cons a ks)
  show ?case
  proof (cases "a \<in> set (split s)")
    case True
    show ?thesis
    proof
      assume "blocked_keyword (a # ks) s = Some k"
      then have "a = k" using True by simp
      then have "a # ks = [] @ k # ks \<and> k \<in> set (split s) \<and> (\<forall>k'\<in>set []. k' \<notin> set (split s))"
        using True by simp
      then show "\<exists>pre post. a # ks = pre @ k # post \<and> k \<in> set (split s) \<and> (\<forall>k'\<in>set pre. k' \<notin> set (split s))"
        by blast
    next
      assume "\<exists>pre post. a # ks = pre @ k # post \<and> k \<in> set (split s) \<and> (\<forall>k'\<in>set pre. k' \<notin> set (split s))"
      then obtain pre post where p: "a # ks = pre @ k # post" "\<forall>k'\<in>set pre. k' \<notin> set (split s)"
        by blast
      have "pre = []"
      proof (cases pre)
        case Nil then show ?thesis .
      next
        case (Cons b pre')
        then have "b = a" using p(1) by simp
        then show ?thesis using p(2) Cons True by simp
      qed
      then show "blocked_keyword (a # ks) s = Some k" using p(1) True by simp
    qed
  next
    case False
    have "(\<exists>pre post. a # ks = pre @ k # post \<and> k \<in> set (split s) \<and> (\<forall>k'\<in>set pre. k' \<notin> set (split s)))
        \<longleftrightarrow> (\<exists>pre post. ks = pre @ k # post \<and> k \<in> set (split s) \<and> (\<forall>k'\<in>set pre. k' \<notin> set (split s)))"
      (is "?L \<longleftrightarrow> ?R")
    proof
      assume ?L
      then obtain pre post where p: "a # ks = pre @ k # post" "k \<in> set (split s)"
          "\<forall>k'\<in>set pre. k' \<notin> set (split s)" by blast
      then obtain pre' where "pre = a # pre'" using False by (cases pre) auto
      then show ?R using p by auto
    next
      assume ?R
      then obtain pre post where p: "ks = pre @ k # post" "k \<in> set (split s)"
          "\<forall>k'\<in>set pre. k' \<notin> set (split s)" by blast
      then have "a # ks = (a # pre) @ k # post \<and> k \<in> set (split s) \<and> (\<forall>k'\<in>set (a # pre). k' \<notin> set (split s))"
        using False by simp
      then show ?L by blast
    qed
    then show ?thesis using Cons False by simp
  qed
qed

lemma guardrail_ALLOW_eq:
  "guardrail query = ALLOW \<longleftrightarrow> blocked_keyword BLOCKED_KEYWORDS (strip (upper query)) = None"
  by (cases "blocked_keyword BLOCKED_KEYWORDS (strip (upper query))") (simp_all add: guardrail_def)

lemma guardrail_BLOCK_eq:
  "guardrail query = BLOCK kw \<longleftrightarrow>
     blocked_keyword BLOCKED_KEYWORDS (strip (upper query)) = Some kw"
  by (cases "blocked_keyword BLOCKED_KEYWORDS (strip (upper query))") (simp_all add: guardrail_def)

lemma guardrail_ALLOW_iff:
  "guardrail query = ALLOW \<longleftrightarrow> (\<forall>k\<in>set BLOCKED_KEYWORDS. k \<notin> normalized_tokens query)"
  unfolding guardrail_ALLOW_eq blocked_keyword_None_iff normalized_split ..

lemma guardrail_BLOCK_iff:
  "guardrail query = BLOCK kw \<longleftrightarrow>
     (\<exists>pre post. BLOCKED_KEYWORDS = pre @ kw # post \<and> kw \<in> normalized_tokens query \<and>
        (\<forall>k\<in>set pre. k \<notin> normalized_tokens query))"
  unfolding guardrail_BLOCK_eq blocked_keyword_Some_iff normalized_split ..

lemma guardrail_BLOCK_keyword:
  assumes "guardrail query = BLOCK kw"
  shows "kw \<in> set BLOCKED_KEYWORDS"
proof -
  from assms obtain pre post where "BLOCKED_KEYWORDS = pre @ kw # post"
    unfolding guardrail_BLOCK_iff by blast
  then show ?thesis by (metis in_set_conv_decomp)
qed

lemma for_append_eq:
  "for_append f xs fin acc = (case fin of None \<Rightarrow> Inr (acc @ map f xs) | Some e \<Rightarrow> Inl e)"
  by (induction xs arbitrary: acc) (auto split: option.splits)

section \<open>What each tool computes\<close>

lemma execute_sql_ALLOW:
  "guardrail query = ALLOW \<Longrightarrow>
   execute_sql bq query =
     (case bq_query bq query of
        Inl e \<Rightarrow> Inr (error_envelope e)
      | Inr (Iter rows (Some e)) \<Rightarrow> Inr (error_envelope e)
      | Inr (Iter rows None) \<Rightarrow>
          Inr [(''status'', PyStr ''success''),
               (''row_count'', PyInt (int (length rows))),
               (''results'', PyRows (take 50 rows))],
      [Query query])"
  by (simp add: execute_sql_def try_except_def for_append_eq
      split: sum.splits iter.splits option.splits)

lemma execute_sql_BLOCK:
  "guardrail query = BLOCK k \<Longrightarrow>
   execute_sql bq query =
     (Inr [(''status'', PyStr ''blocked''), (''message'', PyStr (blocked_message k))], [])"
  by (simp add: execute_sql_def)

lemma get_schema_eq:
  "get_schema bq table_name =
     (case bq_get_table bq (PROJECT_ID @ ''.'' @ DATASET_ID @ ''.'' @ table_name) of
        Inl e \<Rightarrow> Inr (error_envelope e)
      | Inr tbl \<Rightarrow>
          Inr [(''status'', PyStr ''success''),
               (''table'', PyStr (PROJECT_ID @ ''.'' @ DATASET_ID @ ''.'' @ table_name)),
               (''total_rows'', total_rows_val (num_rows tbl)),
               (''columns'', PyDicts (map column_dict (table_schema tbl)))],
      [Get_table (PROJECT_ID @ ''.'' @ DATASET_ID @ ''.'' @ table_name)])"
  by (simp add: get_schema_def Let_def try_except_def for_append_eq split: sum.splits)

lemma list_tables_eq:
  "list_tables bq =
     (case bq_list_tables bq (PROJECT_ID @ ''.'' @ DATASET_ID) of
        Inl e \<Rightarrow> Inr (error_envelope e)
      | Inr (Iter ids (Some e)) \<Rightarrow> Inr (error_envelope e)
      | Inr (Iter ids None) \<Rightarrow>
          Inr [(''status'', PyStr ''success''),
               (''dataset'', PyStr (PROJECT_ID @ ''.'' @ DATASET_ID)),
               (''tables'', PyStrs ids)],
      [List_tables (PROJECT_ID @ ''.'' @ DATASET_ID)])"
  by (simp add: list_tables_def Let_def try_except_def for_append_eq
      split: sum.splits iter.splits option.splits)

lemma execute_sql_returns: "\<exists>env. fst (execute_sql bq query) = Inr env \<and> status_tagged env"
proof (cases "guardrail query")
  case (BLOCK k)
  then show ?thesis by (simp add: execute_sql_BLOCK status_tagged_def)
next
  case ALLOW
  then show ?thesis
    by (simp add: execute_sql_ALLOW status_tagged_def error_envelope_def
        split: sum.splits iter.splits option.splits)
qed

lemma get_schema_returns: "\<exists>env. fst (get_schema bq table_name) = Inr env \<and> status_tagged env"
  by (simp add: get_schema_eq status_tagged_def error_envelope_def split: sum.splits)

lemma list_tables_returns: "\<exists>env. fst (list_tables bq) = Inr env \<and> status_tagged env"
  by (simp add: list_tables_eq status_tagged_def error_envelope_def
      split: sum.splits iter.splits option.splits)

section \<open>The guardrail decides before the store is called\<close>

text \<open>
  Claim C1. If a query contains a forbidden keyword as a standalone whitespace-delimited
  token, read without regard to case (some token \<open>w\<close> of the query has \<open>upper w\<close> among
  \<open>BLOCKED_KEYWORDS\<close>), then \<open>execute_sql\<close> returns the blocked dictionary and has made no
  call on the client: the list of its calls is empty, whatever the client is.
\<close>

theorem blocked_query_never_reaches_store:
  assumes "kw \<in> set BLOCKED_KEYWORDS" and "standalone_token w query" and "upper w = kw"
  shows "\<exists>k. k \<in> set BLOCKED_KEYWORDS \<and>
           execute_sql bq query =
             (Inr [(''status'', PyStr ''blocked''), (''message'', PyStr (blocked_message k))], [])"
proof -
  have "kw \<in> normalized_tokens query"
    using assms(2,3) by (auto simp: normalized_tokens_def)
  then have "guardrail query \<noteq> ALLOW"
    using assms(1) by (auto simp: guardrail_ALLOW_iff)
  then obtain k where k: "guardrail query = BLOCK k"
    by (cases "guardrail query") auto
  then have "k \<in> set BLOCKED_KEYWORDS" by (rule guardrail_BLOCK_keyword)
  moreover have "execute_sql bq query =
      (Inr [(''status'', PyStr ''blocked''), (''message'', PyStr (blocked_message k))], [])"
    using k by (simp add: execute_sql_def)
  ultimately show ?thesis by blast
qed

theorem blocked_query_never_reaches_store_witness:
  "\<exists>k. k \<in> set BLOCKED_KEYWORDS \<and>
     execute_sql sample_bq ''delete from orders'' =
       (Inr [(''status'', PyStr ''blocked''), (''message'', PyStr (blocked_message k))], [])"
proof -
  have a: "''DELETE'' \<in> set BLOCKED_KEYWORDS" by (simp add: BLOCKED_KEYWORDS_def)
  have "''delete'' \<in> set (split ''delete from orders'')" by code_simp
  then have b: "standalone_token ''delete'' ''delete from orders''" by (simp only: in_split_iff)
  have c: "upper ''delete'' = ''DELETE''" by code_simp
  show ?thesis by (rule blocked_query_never_reaches_store [OF a b c])
qed

text \<open>
  Claim C3. If every forbidden keyword occurs in the query only inside larger tokens
  (whenever a keyword is a part of an upper-cased token of the query, it is a proper part
  of it), then the guardrail allows the query and \<open>execute_sql\<close> submits it to the client:
  its only call is \<open>Query query\<close>. Matching is on whole tokens, never on parts of a token.
\<close>

theorem keyword_inside_identifier_allowed:
  assumes "\<forall>kw\<in>set BLOCKED_KEYWORDS. \<forall>w. standalone_token w query \<and> sublist kw (upper w)
             \<longrightarrow> strict_sublist kw (upper w)"
  shows "guardrail query = ALLOW \<and> snd (execute_sql bq query) = [Query query]"
proof -
  have "\<forall>k\<in>set BLOCKED_KEYWORDS. k \<notin> normalized_tokens query"
  proof
    fix k assume k: "k \<in> set BLOCKED_KEYWORDS"
    show "k \<notin> normalized_tokens query"
    proof
      assume "k \<in> normalized_tokens query"
      then obtain w where w: "standalone_token w query" "upper w = k"
        by (auto simp: normalized_tokens_def)
      then have "strict_sublist k (upper w)" using assms k by auto
      then show False using w(2) by (simp add: strict_sublist_def)
    qed
  qed
  then have "guardrail query = ALLOW" by (simp add: guardrail_ALLOW_iff)
  then show ?thesis by (simp add: execute_sql_ALLOW)
qed

theorem keyword_inside_identifier_allowed_witness:
  "strict_sublist ''UPDATE'' (upper ''update_count'') \<and>
   standalone_token ''update_count'' ''SELECT update_count FROM orders'' \<and>
   guardrail ''SELECT update_count FROM orders'' = ALLOW \<and>
   snd (execute_sql sample_bq ''SELECT update_count FROM orders'') =
     [Query ''SELECT update_count FROM orders'']"
proof -
  have sp: "split ''SELECT update_count FROM orders'' =
      [''SELECT'', ''update_count'', ''FROM'', ''orders'']"
    by code_simp
  have up: "upper ''SELECT'' = ''SELECT''" "upper ''update_count'' = ''UPDATE_COUNT''"
    "upper ''FROM'' = ''FROM''" "upper ''orders'' = ''ORDERS''"
    by code_simp+
  have h: "\<forall>kw\<in>set BLOCKED_KEYWORDS. \<forall>w.
      standalone_token w ''SELECT update_count FROM orders'' \<and> sublist kw (upper w)
        \<longrightarrow> strict_sublist kw (upper w)"
    unfolding in_split_iff [symmetric] sp strict_sublist_def BLOCKED_KEYWORDS_def
    using up by auto
  have s: "strict_sublist ''UPDATE'' (upper ''update_count'')"
    unfolding up strict_sublist_def
    by (simp add: sublist_def) (rule exI [of _ "[]"], simp)
  have t: "standalone_token ''update_count'' ''SELECT update_count FROM orders''"
    unfolding in_split_iff [symmetric] sp by simp
  show ?thesis
    using keyword_inside_identifier_allowed [OF h, of sample_bq] s t by simp
qed

text \<open>
  Claim C10. Tokens are split at whitespace only, so a keyword with punctuation attached
  is not a whole token: the queries \<open>DELETE;FROM orders\<close> and \<open>DROP(TABLE)\<close> are allowed
  and \<open>execute_sql\<close> submits each of them to the client, whatever the client is.
\<close>

theorem keyword_fused_to_punctuation_allowed:
  "guardrail ''DELETE;FROM orders'' = ALLOW \<and>
   snd (execute_sql bq ''DELETE;FROM orders'') = [Query ''DELETE;FROM orders''] \<and>
   guardrail ''DROP(TABLE)'' = ALLOW \<and>
   snd (execute_sql bq ''DROP(TABLE)'') = [Query ''DROP(TABLE)'']"
proof -
  have a: "guardrail ''DELETE;FROM orders'' = ALLOW" by code_simp
  have b: "guardrail ''DROP(TABLE)'' = ALLOW" by code_simp
  show ?thesis using a b by (simp add: execute_sql_ALLOW)
qed

text \<open>
  Claim C5. The decision is a function of the query alone. It is \<open>BLOCK kw\<close> exactly when
  \<open>kw\<close> is the first entry of \<open>BLOCKED_KEYWORDS\<close>, in the order of that list, that is among
  the upper-cased tokens of the query; two queries with the same set of upper-cased tokens
  get the same decision, wherever the keywords stand in them; and the blocked dictionary,
  which names \<open>kw\<close> in its message, is the same for every client.
\<close>

theorem guardrail_reports_first_policy_keyword:
  "(guardrail query = BLOCK kw \<longleftrightarrow>
      (\<exists>pre post. BLOCKED_KEYWORDS = pre @ kw # post \<and> kw \<in> normalized_tokens query \<and>
         (\<forall>k\<in>set pre. k \<notin> normalized_tokens query))) \<and>
   (normalized_tokens query = normalized_tokens query' \<longrightarrow> guardrail query = guardrail query') \<and>
   (guardrail query = BLOCK kw \<longrightarrow>
      execute_sql bq query = execute_sql bq' query \<and>
      fst (execute_sql bq query) =
        Inr [(''status'', PyStr ''blocked''), (''message'', PyStr (blocked_message kw))])"
proof (intro conjI impI)
  show "guardrail query = BLOCK kw \<longleftrightarrow>
      (\<exists>pre post. BLOCKED_KEYWORDS = pre @ kw # post \<and> kw \<in> normalized_tokens query \<and>
         (\<forall>k\<in>set pre. k \<notin> normalized_tokens query))"
    by (rule guardrail_BLOCK_iff)
next
  assume eq: "normalized_tokens query = normalized_tokens query'"
  show "guardrail query = guardrail query'"
  proof (cases "guardrail query")
    case ALLOW
    then have "guardrail query' = ALLOW" using eq by (simp add: guardrail_ALLOW_iff)
    with ALLOW show ?thesis by simp
  next
    case (BLOCK k)
    then have "guardrail query' = BLOCK k" using eq by (simp add: guardrail_BLOCK_iff)
    with BLOCK show ?thesis by simp
  qed
next
  assume "guardrail query = BLOCK kw"
  then show "execute_sql bq query = execute_sql bq' query"
    by (simp add: execute_sql_BLOCK)
next
  assume "guardrail query = BLOCK kw"
  then show "fst (execute_sql bq query) =
        Inr [(''status'', PyStr ''blocked''), (''message'', PyStr (blocked_message kw))]"
    by (simp add: execute_sql_BLOCK)
qed

theorem guardrail_reports_first_policy_keyword_witness:
  "guardrail ''update t drop delete'' = BLOCK ''DELETE'' \<and>
   guardrail ''delete drop t update'' = BLOCK ''DELETE'' \<and>
   fst (execute_sql sample_bq ''update t drop delete'') =
     Inr [(''status'', PyStr ''blocked''), (''message'', PyStr (blocked_message ''DELETE''))]"
proof -
  note th = guardrail_reports_first_policy_keyword
    [of "''update t drop delete''" "''DELETE''" "''delete drop t update''" sample_bq sample_bq]
  have t: "''DELETE'' \<in> normalized_tokens ''update t drop delete''"
    unfolding normalized_split [symmetric] by code_simp
  have "BLOCKED_KEYWORDS = [] @ ''DELETE'' # tl BLOCKED_KEYWORDS"
    by (simp add: BLOCKED_KEYWORDS_def)
  then have "\<exists>pre post. BLOCKED_KEYWORDS = pre @ ''DELETE'' # post \<and>
      ''DELETE'' \<in> normalized_tokens ''update t drop delete'' \<and>
      (\<forall>k\<in>set pre. k \<notin> normalized_tokens ''update t drop delete'')"
    using t by (intro exI [of _ "[]"] exI [of _ "tl BLOCKED_KEYWORDS"]) simp
  then have g: "guardrail ''update t drop delete'' = BLOCK ''DELETE''"
    using th by blast
  have "set (split (strip (upper ''update t drop delete''))) =
      set (split (strip (upper ''delete drop t update'')))"
    by code_simp
  then have e: "normalized_tokens ''update t drop delete'' = normalized_tokens ''delete drop t update''"
    by (simp only: normalized_split)
  show ?thesis using th g e by simp
qed

section \<open>The blocked dictionary\<close>

text \<open>
  Claim C6 does not hold as worded: the dictionary returned for \<open>DELETE FROM orders\<close> has
  the two entries \<open>status\<close> and \<open>message\<close> and nothing else. It has no \<open>rule\<close> entry, and
  no entry has the keyword \<open>DELETE\<close> as its value; the keyword stands only inside the text
  of the message.
\<close>

theorem blocked_envelope_has_no_rule_field:
  "fst (execute_sql sample_bq ''DELETE FROM orders'') =
     Inr [(''status'', PyStr ''blocked''),
          (''message'', PyStr ''Query blocked: contains 'DELETE' operation. This agent is read-only and cannot modify data.'')] \<and>
   map fst (projr (fst (execute_sql sample_bq ''DELETE FROM orders''))) = [''status'', ''message''] \<and>
   map_of (projr (fst (execute_sql sample_bq ''DELETE FROM orders''))) ''rule'' = None \<and>
   PyStr ''DELETE'' \<notin> snd ` set (projr (fst (execute_sql sample_bq ''DELETE FROM orders'')))"
proof -
  have g: "guardrail ''DELETE FROM orders'' = BLOCK ''DELETE''" by code_simp
  show ?thesis by (simp add: execute_sql_BLOCK [OF g] blocked_message_def)
qed

text \<open>
  Claim C6, amended. Every blocked dictionary of \<open>execute_sql\<close> has exactly the two
  entries \<open>status = blocked\<close> and \<open>message\<close>, and the message is the fixed sentence with
  the matched keyword, an entry of \<open>BLOCKED_KEYWORDS\<close>, between quotes.
\<close>

theorem blocked_envelope_is_status_and_message:
  assumes "fst (execute_sql bq query) = Inr env"
    and "map_of env ''status'' = Some (PyStr ''blocked'')"
  shows "\<exists>kw. kw \<in> set BLOCKED_KEYWORDS \<and> guardrail query = BLOCK kw \<and>
           env = [(''status'', PyStr ''blocked''),
                  (''message'', PyStr (''Query blocked: contains '' @ [CHR 0x27] @ kw @ [CHR 0x27] @
                     '' operation. This agent is read-only and cannot modify data.''))] \<and>
           map fst env = [''status'', ''message'']"
proof (cases "guardrail query")
  case ALLOW
  then have False using assms
    by (auto simp: execute_sql_ALLOW error_envelope_def split: sum.splits iter.splits option.splits)
  then show ?thesis ..
next
  case (BLOCK k)
  then have "k \<in> set BLOCKED_KEYWORDS" by (rule guardrail_BLOCK_keyword)
  then show ?thesis using BLOCK assms by (auto simp: execute_sql_BLOCK blocked_message_def)
qed

theorem blocked_envelope_is_status_and_message_witness:
  "fst (execute_sql sample_bq ''DROP TABLE orders'') =
     Inr [(''status'', PyStr ''blocked''), (''message'', PyStr (blocked_message ''DROP''))] \<and>
   (\<exists>kw. kw \<in> set BLOCKED_KEYWORDS \<and> guardrail ''DROP TABLE orders'' = BLOCK kw \<and>
      [(''status'', PyStr ''blocked''), (''message'', PyStr (blocked_message ''DROP'') :: nat pyval)] =
        [(''status'', PyStr ''blocked''),
         (''message'', PyStr (''Query blocked: contains '' @ [CHR 0x27] @ kw @ [CHR 0x27] @
            '' operation. This agent is read-only and cannot modify data.''))])"
proof -
  have g: "guardrail ''DROP TABLE orders'' = BLOCK ''DROP''" by code_simp
  have e: "fst (execute_sql sample_bq ''DROP TABLE orders'') =
      Inr [(''status'', PyStr ''blocked''), (''message'', PyStr (blocked_message ''DROP''))]"
    by (simp add: execute_sql_BLOCK [OF g])
  have s: "map_of [(''status'', PyStr ''blocked''), (''message'', PyStr (blocked_message ''DROP'') :: nat pyval)]
      ''status'' = Some (PyStr ''blocked'')"
    by simp
  show ?thesis using e blocked_envelope_is_status_and_message [OF e s] by blast
qed

section \<open>Results of the tools\<close>

text \<open>
  Claim C2. Whenever \<open>execute_sql\<close> returns a dictionary with status \<open>success\<close>, the
  client has yielded some rows to the end of the iteration, \<open>row_count\<close> is the number of
  all of them and \<open>results\<close> is the first 50 of them in the client's order: \<open>min n 50\<close> rows,
  and 50 of them when there are more than 50.
\<close>

theorem row_count_is_full_count:
  assumes "fst (execute_sql bq query) = Inr env"
    and "map_of env ''status'' = Some (PyStr ''success'')"
  shows "\<exists>rows. bq_query bq query = Inr (Iter rows None) \<and>
           env = [(''status'', PyStr ''success''),
                  (''row_count'', PyInt (int (length rows))),
                  (''results'', PyRows (take 50 rows))] \<and>
           length (take 50 rows) = min (length rows) 50 \<and>
           (50 < length rows \<longrightarrow> length (take 50 rows) = 50)"
proof (cases "guardrail query")
  case (BLOCK k)
  then show ?thesis using assms by (auto simp: execute_sql_BLOCK)
next
  case ALLOW
  show ?thesis
  proof (cases "bq_query bq query")
    case (Inl e)
    then show ?thesis using assms ALLOW by (auto simp: execute_sql_ALLOW error_envelope_def)
  next
    case (Inr it)
    obtain rows fin where it: "it = Iter rows fin" by (cases it)
    show ?thesis
    proof (cases fin)
      case None
      then show ?thesis using assms ALLOW Inr it by (auto simp: execute_sql_ALLOW)
    next
      case (Some e)
      then show ?thesis using assms ALLOW Inr it by (auto simp: execute_sql_ALLOW error_envelope_def)
    qed
  qed
qed

theorem row_count_is_full_count_witness:
  "\<exists>rows. bq_query sample_bq ''SELECT * FROM orders'' = Inr (Iter rows None) \<and>
     [(''status'', PyStr ''success''), (''row_count'', PyInt 120), (''results'', PyRows [0..<50])] =
       [(''status'', PyStr ''success''),
        (''row_count'', PyInt (int (length rows))),
        (''results'', PyRows (take 50 rows))] \<and>
     length (take 50 rows) = min (length rows) 50 \<and>
     (50 < length rows \<longrightarrow> length (take 50 rows) = 50)"
proof -
  have g: "guardrail ''SELECT * FROM orders'' = ALLOW" by code_simp
  have e: "fst (execute_sql sample_bq ''SELECT * FROM orders'') =
      Inr [(''status'', PyStr ''success''), (''row_count'', PyInt 120), (''results'', PyRows [0..<50])]"
    using g by (simp add: execute_sql_ALLOW sample_bq_def sample_query_def take_upt)
  have s: "map_of [(''status'', PyStr ''success''), (''row_count'', PyInt 120),
      (''results'', PyRows [0..<50 :: nat])] ''status'' = Some (PyStr ''success'')"
    by simp
  show ?thesis by (rule row_count_is_full_count [OF e s])
qed

text \<open>
  Claim C4. For every query, every table name and every client, whatever its calls return
  or raise, each of \<open>execute_sql\<close>, \<open>get_schema\<close> and \<open>list_tables\<close> returns a dictionary
  with exactly one status tag among \<open>success\<close>, \<open>blocked\<close> and \<open>error\<close>; no exception of the
  client leaves a tool.
\<close>

theorem tools_always_return_envelope:
  "(\<exists>env. fst (execute_sql bq query) = Inr env \<and> status_tagged env) \<and>
   (\<exists>env. fst (get_schema bq table_name) = Inr env \<and> status_tagged env) \<and>
   (\<exists>env. fst (list_tables bq) = Inr env \<and> status_tagged env)"
  using execute_sql_returns get_schema_returns list_tables_returns by blast



section \<open>The audit callbacks and the dispatch\<close>

text \<open>
  Claim C7 does not hold as worded: on a standard output whose writes fail, each
  callback leaves by the exception of \<open>print\<close> instead of returning.
\<close>

theorem logging_failure_leaves_the_callback:
  "(before_tool_callback broken_stdout sample_str_args ''execute_sql'' sample_args []
      :: exn + (nat envelope option \<times> string list)) =
     Inl (Exception ''[Errno 32] Broken pipe'') \<and>
   (after_tool_callback broken_stdout sample_str_response ''execute_sql'' sample_args
      [(''status'', PyStr ''blocked''), (''message'', PyStr (blocked_message ''DELETE''))] []
      :: exn + (nat envelope option \<times> string list)) =
     Inl (Exception ''[Errno 32] Broken pipe'')"
  by (simp add: before_tool_callback_def after_tool_callback_def print_def broken_stdout_def)

text \<open>
  Claim C7, amended. Each callback prints one line and returns \<open>None\<close>, so that the
  response of the tool stays as it is, when \<open>print\<close> succeeds; neither callback handles
  exceptions, and an exception raised by \<open>print\<close> leaves the callback to its caller.
\<close>

theorem callbacks_return_None_or_raise:
  "(write (''BEFORE TOOL | '' @ tool_name @ '' | Args: '' @ take 200 (str_args args)) = None \<longrightarrow>
      (before_tool_callback write str_args tool_name args out :: exn + ('r option \<times> string list)) =
        Inr (None, out @ [''BEFORE TOOL | '' @ tool_name @ '' | Args: '' @ take 200 (str_args args)])) \<and>
   (\<forall>e. write (''BEFORE TOOL | '' @ tool_name @ '' | Args: '' @ take 200 (str_args args)) = Some e \<longrightarrow>
      (before_tool_callback write str_args tool_name args out :: exn + ('r option \<times> string list)) = Inl e) \<and>
   (write (''AUDIT LOG | Tool: '' @ tool_name @ '' | Response: '' @
             take 300 ((str_response :: 'r \<Rightarrow> string) tool_response)) = None \<longrightarrow>
      after_tool_callback write str_response tool_name args tool_response out =
        Inr (None, out @ [''AUDIT LOG | Tool: '' @ tool_name @ '' | Response: '' @
                          take 300 (str_response tool_response)])) \<and>
   (\<forall>e. write (''AUDIT LOG | Tool: '' @ tool_name @ '' | Response: '' @ take 300 (str_response tool_response)) = Some e \<longrightarrow>
      after_tool_callback write str_response tool_name args tool_response out = Inl e)"
  by (simp add: before_tool_callback_def after_tool_callback_def print_def Let_def)

theorem callbacks_return_None_or_raise_witness:
  "(before_tool_callback working_stdout sample_str_args ''execute_sql'' sample_args []
      :: exn + (nat envelope option \<times> string list)) =
     Inr (None, [''BEFORE TOOL | execute_sql | Args: {'query': 'DELETE FROM orders'}'']) \<and>
   (after_tool_callback working_stdout sample_str_response ''execute_sql'' sample_args
      [(''status'', PyStr ''blocked''), (''message'', PyStr (blocked_message ''DELETE''))]
      [''BEFORE TOOL | execute_sql | Args: {'query': 'DELETE FROM orders'}'']
      :: exn + (nat envelope option \<times> string list)) =
     Inr (None, [''BEFORE TOOL | execute_sql | Args: {'query': 'DELETE FROM orders'}'',
                 ''AUDIT LOG | Tool: execute_sql | Response: {'status': 'blocked', ...}'']) \<and>
   (before_tool_callback broken_stdout sample_str_args ''execute_sql'' sample_args []
      :: exn + (nat envelope option \<times> string list)) =
     Inl (Exception ''[Errno 32] Broken pipe'')"
proof -
  let ?resp = "[(''status'', PyStr ''blocked''), (''message'', PyStr (blocked_message ''DELETE''))]
    :: nat envelope"
  let ?pre = "''BEFORE TOOL | execute_sql | Args: {'query': 'DELETE FROM orders'}''"
  have a: "''BEFORE TOOL | '' @ ''execute_sql'' @ '' | Args: '' @ take 200 (sample_str_args sample_args) = ?pre"
    by (simp add: sample_str_args_def sample_args_def quote_def)
  have b: "''AUDIT LOG | Tool: '' @ ''execute_sql'' @ '' | Response: '' @ take 300 (sample_str_response ?resp)
      = ''AUDIT LOG | Tool: execute_sql | Response: {'status': 'blocked', ...}''"
    by (simp add: sample_str_response_def quote_def)
  have w: "\<And>line. working_stdout line = None" by (simp add: working_stdout_def)
  have k: "\<And>line. broken_stdout line = Some (Exception ''[Errno 32] Broken pipe'')"
    by (simp add: broken_stdout_def)
  show ?thesis
    using callbacks_return_None_or_raise [of working_stdout "''execute_sql''" sample_str_args
        sample_args "[]" sample_str_response "?resp"]
      callbacks_return_None_or_raise [of working_stdout "''execute_sql''" sample_str_args
        sample_args "[?pre]" sample_str_response "?resp"]
      callbacks_return_None_or_raise [of broken_stdout "''execute_sql''" sample_str_args
        sample_args "[]" sample_str_response "?resp"]
    unfolding a b w k by simp
qed





end
